theory Spec2Isabelle
  imports Main "HOL-Library.Word"
begin

section \<open>Data model (storage/models.go)\<close>

text \<open>
  Go's \<open>int64\<close> row ids and \<open>int\<close> sizes are modelled as \<open>int\<close>; the conversions
  \<open>uint32(...)\<close> that the IMAP adapter applies to them are written out as
  \<open>word_of_int\<close> (truncation modulo \<open>2 ^ 32\<close>). Byte slices and strings are both
  \<open>string\<close> (a list of 8-bit characters), so \<open>string(body)\<close> is the identity.

  A \<open>time.Time\<close> is the instant it denotes, counted from the instant of the zero value
  \<open>time.Time{}\<close>, together with its location. \<open>Before\<close> and \<open>After\<close> compare the
  instants only; the comparison of two \<open>time.Time\<close> structs with \<open>==\<close> or \<open>!=\<close> compares
  the instant and the location. The zero value is the instant 0 in UTC, which is the nil
  location of the struct.
\<close>

type_synonym uint32 = "32 word"

record time =
  instant :: int
  zone :: string

definition zero_time :: time where
  "zero_time = \<lparr>instant = 0, zone = ''UTC''\<rparr>"

definition Before :: "time \<Rightarrow> time \<Rightarrow> bool" where
  "Before t u = (instant t < instant u)"

definition After :: "time \<Rightarrow> time \<Rightarrow> bool" where
  "After t u = (instant t > instant u)"

record user =
  User_ID :: int
  Username :: string
  Password :: string
  User_Name :: string
  Email :: string
  User_Created :: time
  Updated :: time

record mailbox =
  Mailbox_ID :: int
  UserID :: int
  Mailbox_Name :: string
  Path :: string

record message =
  ID :: int
  MailboxID :: int
  UID :: uint32
  From :: string
  To :: string
  Cc :: string
  Subject :: string
  Date :: time
  Body :: string
  RawData :: string
  Flags :: string
  Size :: int
  Seen :: bool
  Deleted :: bool
  Draft :: bool
  Created :: time

record attachment =
  Attachment_ID :: int
  MessageID :: int
  Filename :: string
  MimeType :: string
  Attachment_Data :: string
  Attachment_Size :: int
  Attachment_Created :: time

section \<open>The relational store behind storage.Storage\<close>

text \<open>
  Both backends send the same statements to a relational engine and declare the same
  schema (sqlite.go:58-114, postgres.go:51-104): four tables, row ids generated by the
  engine, \<open>UNIQUE\<close> on \<open>users.username\<close>, \<open>users.email\<close>, \<open>mailboxes(user_id, name)\<close>
  and \<open>messages(mailbox_id, uid)\<close>, and foreign keys declared \<open>ON DELETE CASCADE\<close>.
  The state of the store is the content of the four tables in insertion order, the
  next row id of each table, the kind of engine, and the engine failures still to
  come: \<open>faults\<close> holds one entry per future statement, \<open>True\<close> when that statement
  will fail with an engine error (connection lost, disk full); past the end of the list
  every statement succeeds. A statement that fails has no effect on the tables.

  The methods that insert a row also write the generated id and the timestamps back into
  the struct they were handed. No caller in the repository reads them, except
  \<open>CreateUser\<close> itself, which uses the new user id for the default mailboxes; the model
  keeps the stored row. The SQLite driver's \<open>LastInsertId\<close> returns the id kept from the
  insert together with a nil error, so the error branch after it is never taken, and the
  two backends run the same statements.
\<close>

datatype engine = SQLite | Postgres

datatype error =
    ErrUserNotFound
  | ErrMailboxNotFound
  | ErrMessageNotFound
  | ErrInvalidPassword
  | ErrStore
  | ErrConstraint
  | ErrRead
  | ErrTooLarge
  | ErrAnonymous

record db =
  engine :: engine
  users :: "user list"
  mailboxes :: "mailbox list"
  messages :: "message list"
  attachments :: "attachment list"
  next_user_id :: int
  next_mailbox_id :: int
  next_message_id :: int
  next_attachment_id :: int
  faults :: "bool list"

text \<open>
  Foreign keys. PostgreSQL always enforces the declared foreign keys. SQLite enforces
  them (the parent check on insert and the \<open>ON DELETE CASCADE\<close> action) only on a
  connection on which \<open>PRAGMA foreign_keys = ON\<close> has been issued; the engine's default
  is off. \<open>SQLiteStorage.Open\<close> (sqlite.go:34-47) opens the database by its bare path
  and then runs \<open>createSchema\<close> only, so on that backend the declared foreign keys are
  not enforced.
\<close>

definition foreign_keys :: "engine \<Rightarrow> bool" where
  "foreign_keys e = (case e of SQLite \<Rightarrow> False | Postgres \<Rightarrow> True)"

text \<open>\<open>Open\<close>: an empty store of the given kind after \<open>createSchema\<close>.\<close>

definition Open :: "engine \<Rightarrow> db" where
  "Open e = \<lparr>engine = e, users = [], mailboxes = [], messages = [], attachments = [],
     next_user_id = 1, next_mailbox_id = 1, next_message_id = 1, next_attachment_id = 1,
     faults = []\<rparr>"

text \<open>Whether the next statement fails, and the store once that statement was issued.\<close>

definition failing :: "db \<Rightarrow> bool" where
  "failing d = (case faults d of [] \<Rightarrow> False | f # _ \<Rightarrow> f)"

definition advance :: "db \<Rightarrow> db" where
  "advance d = d\<lparr>faults := tl (faults d)\<rparr>"

subsection \<open>DELETE with the schema's cascades\<close>

definition delete_messages :: "(message \<Rightarrow> bool) \<Rightarrow> db \<Rightarrow> db" where
  "delete_messages P d =
     (let gone = map ID (filter P (messages d)) in
      d\<lparr>messages := filter (\<lambda>m. \<not> P m) (messages d),
        attachments :=
          (if foreign_keys (engine d)
           then filter (\<lambda>a. MessageID a \<notin> set gone) (attachments d)
           else attachments d)\<rparr>)"

definition delete_mailboxes :: "(mailbox \<Rightarrow> bool) \<Rightarrow> db \<Rightarrow> db" where
  "delete_mailboxes P d =
     (let gone = map Mailbox_ID (filter P (mailboxes d));
          d1 = d\<lparr>mailboxes := filter (\<lambda>b. \<not> P b) (mailboxes d)\<rparr>
      in if foreign_keys (engine d)
         then delete_messages (\<lambda>m. MailboxID m \<in> set gone) d1
         else d1)"

definition delete_users :: "(user \<Rightarrow> bool) \<Rightarrow> db \<Rightarrow> db" where
  "delete_users P d =
     (let gone = map User_ID (filter P (users d));
          d1 = d\<lparr>users := filter (\<lambda>u. \<not> P u) (users d)\<rparr>
      in if foreign_keys (engine d)
         then delete_mailboxes (\<lambda>b. UserID b \<in> set gone) d1
         else d1)"

subsection \<open>Mailboxes (sqlite.go:207-273, postgres.go)\<close>

text \<open>
  \<open>CreateMailbox\<close>: one \<open>INSERT\<close>. The engine rejects it when the user already has a
  mailbox of that name or, with foreign keys enforced, when the user row is missing.
\<close>

definition CreateMailbox :: "db \<Rightarrow> mailbox \<Rightarrow> error option \<times> db" where
  "CreateMailbox d mb =
     (if failing d then (Some ErrStore, advance d)
      else if (\<exists>x \<in> set (mailboxes d). UserID x = UserID mb \<and> Mailbox_Name x = Mailbox_Name mb)
              \<or> (foreign_keys (engine d) \<and> UserID mb \<notin> User_ID ` set (users d))
        then (Some ErrConstraint, advance d)
      else (None, (advance d)\<lparr>
              mailboxes := mailboxes d @ [mb\<lparr>Mailbox_ID := next_mailbox_id d\<rparr>],
              next_mailbox_id := next_mailbox_id d + 1\<rparr>))"

definition GetMailbox :: "db \<Rightarrow> int \<Rightarrow> string \<Rightarrow> (error + mailbox) \<times> db" where
  "GetMailbox d userID name =
     (if failing d then (Inl ErrStore, advance d)
      else (case filter (\<lambda>x. UserID x = userID \<and> Mailbox_Name x = name) (mailboxes d) of
              [] \<Rightarrow> (Inl ErrMailboxNotFound, advance d)
            | x # _ \<Rightarrow> (Inr x, advance d)))"

definition DeleteMailbox :: "db \<Rightarrow> int \<Rightarrow> error option \<times> db" where
  "DeleteMailbox d mailboxID =
     (if failing d then (Some ErrStore, advance d)
      else (None, delete_mailboxes (\<lambda>b. Mailbox_ID b = mailboxID) (advance d)))"

subsection \<open>Users (sqlite.go:117-203, postgres.go:107-135)\<close>

text \<open>
  \<open>CreateUser\<close>: the \<open>INSERT\<close> of the user row, then a loop over the four default
  names calling \<open>CreateMailbox\<close>, returning at the first error. No statement opens or
  closes a transaction.
\<close>

fun create_default_mailboxes :: "db \<Rightarrow> int \<Rightarrow> string list \<Rightarrow> error option \<times> db" where
  "create_default_mailboxes d uid [] = (None, d)"
| "create_default_mailboxes d uid (name # names) =
     (case CreateMailbox d \<lparr>Mailbox_ID = 0, UserID = uid, Mailbox_Name = name, Path = name\<rparr> of
        (Some e, d') \<Rightarrow> (Some e, d')
      | (None, d') \<Rightarrow> create_default_mailboxes d' uid names)"

definition default_mailboxes :: "string list" where
  "default_mailboxes = [''INBOX'', ''Sent'', ''Drafts'', ''Trash'']"

definition CreateUser :: "db \<Rightarrow> time \<Rightarrow> user \<Rightarrow> error option \<times> db" where
  "CreateUser d now u =
     (if failing d then (Some ErrStore, advance d)
      else if \<exists>x \<in> set (users d). Username x = Username u \<or> Email x = Email u
        then (Some ErrConstraint, advance d)
      else create_default_mailboxes
             ((advance d)\<lparr>
                users := users d @ [u\<lparr>User_ID := next_user_id d, User_Created := now, Updated := now\<rparr>],
                next_user_id := next_user_id d + 1\<rparr>)
             (next_user_id d) default_mailboxes)"

definition GetUser :: "db \<Rightarrow> string \<Rightarrow> (error + user) \<times> db" where
  "GetUser d username =
     (if failing d then (Inl ErrStore, advance d)
      else (case filter (\<lambda>x. Username x = username) (users d) of
              [] \<Rightarrow> (Inl ErrUserNotFound, advance d)
            | x # _ \<Rightarrow> (Inr x, advance d)))"

definition DeleteUser :: "db \<Rightarrow> int \<Rightarrow> error option \<times> db" where
  "DeleteUser d userID =
     (if failing d then (Some ErrStore, advance d)
      else (None, delete_users (\<lambda>u. User_ID u = userID) (advance d)))"

definition AuthenticateUser :: "db \<Rightarrow> string \<Rightarrow> string \<Rightarrow> (error + user) \<times> db" where
  "AuthenticateUser d username password =
     (case GetUser d username of
        (Inl e, d') \<Rightarrow> (Inl e, d')
      | (Inr u, d') \<Rightarrow> if Password u \<noteq> password then (Inl ErrInvalidPassword, d') else (Inr u, d'))"

subsection \<open>Messages (sqlite.go:289-383, postgres.go:270-359)\<close>

text \<open>
  \<open>CreateMessage\<close> sets \<open>Created\<close> and inserts the row with the columns of the struct it
  was handed, \<open>uid\<close> included; only the row id comes from the engine. The engine rejects
  the insert when the mailbox already holds a row with that \<open>uid\<close> or, with foreign keys
  enforced, when the mailbox row is missing.
\<close>

definition CreateMessage :: "db \<Rightarrow> time \<Rightarrow> message \<Rightarrow> error option \<times> db" where
  "CreateMessage d now m =
     (if failing d then (Some ErrStore, advance d)
      else if (\<exists>x \<in> set (messages d). MailboxID x = MailboxID m \<and> UID x = UID m)
              \<or> (foreign_keys (engine d) \<and> MailboxID m \<notin> Mailbox_ID ` set (mailboxes d))
        then (Some ErrConstraint, advance d)
      else (None, (advance d)\<lparr>
              messages := messages d @ [m\<lparr>ID := next_message_id d, Created := now\<rparr>],
              next_message_id := next_message_id d + 1\<rparr>))"

text \<open>\<open>ListMessages\<close>: the rows of the mailbox, \<open>ORDER BY uid\<close>.\<close>

definition select_messages :: "db \<Rightarrow> int \<Rightarrow> message list" where
  "select_messages d mailboxID =
     sort_key UID (filter (\<lambda>m. MailboxID m = mailboxID) (messages d))"

definition ListMessages :: "db \<Rightarrow> int \<Rightarrow> (error + message list) \<times> db" where
  "ListMessages d mailboxID =
     (if failing d then (Inl ErrStore, advance d)
      else (Inr (select_messages d mailboxID), advance d))"

definition GetMessage :: "db \<Rightarrow> int \<Rightarrow> uint32 \<Rightarrow> (error + message) \<times> db" where
  "GetMessage d mailboxID uid =
     (if failing d then (Inl ErrStore, advance d)
      else (case filter (\<lambda>m. MailboxID m = mailboxID \<and> UID m = uid) (messages d) of
              [] \<Rightarrow> (Inl ErrMessageNotFound, advance d)
            | x # _ \<Rightarrow> (Inr x, advance d)))"

definition UpdateMessageFlags ::
  "db \<Rightarrow> int \<Rightarrow> string \<Rightarrow> bool \<Rightarrow> bool \<Rightarrow> bool \<Rightarrow> error option \<times> db" where
  "UpdateMessageFlags d messageID flags seen deleted draft =
     (if failing d then (Some ErrStore, advance d)
      else (None, (advance d)\<lparr>messages :=
              map (\<lambda>m. if ID m = messageID
                        then m\<lparr>Flags := flags, Seen := seen, Deleted := deleted, Draft := draft\<rparr>
                        else m)
                  (messages d)\<rparr>))"

definition DeleteMessage :: "db \<Rightarrow> int \<Rightarrow> error option \<times> db" where
  "DeleteMessage d messageID =
     (if failing d then (Some ErrStore, advance d)
      else (None, delete_messages (\<lambda>m. ID m = messageID) (advance d)))"

subsection \<open>Attachments (sqlite.go:387-438, postgres.go:363-408)\<close>

definition CreateAttachment :: "db \<Rightarrow> time \<Rightarrow> attachment \<Rightarrow> error option \<times> db" where
  "CreateAttachment d now a =
     (if failing d then (Some ErrStore, advance d)
      else if foreign_keys (engine d) \<and> MessageID a \<notin> ID ` set (messages d)
        then (Some ErrConstraint, advance d)
      else (None, (advance d)\<lparr>
              attachments := attachments d @
                [a\<lparr>Attachment_ID := next_attachment_id d, Attachment_Created := now\<rparr>],
              next_attachment_id := next_attachment_id d + 1\<rparr>))"

definition DeleteAttachment :: "db \<Rightarrow> int \<Rightarrow> error option \<times> db" where
  "DeleteAttachment d attachmentID =
     (if failing d then (Some ErrStore, advance d)
      else (None, (advance d)\<lparr>attachments :=
              filter (\<lambda>a. Attachment_ID a \<noteq> attachmentID) (attachments d)\<rparr>))"

section \<open>Mailbox session adapter (server/imap.go)\<close>

text \<open>
  An \<open>IMAPMailbox\<close> holds the store and the mailbox row it was made from; its methods
  take the store and that row. \<open>imap.SeqSet\<close> belongs to the protocol engine: it is used
  through \<open>Contains\<close> only, so a set of numbers stands for it.
\<close>

type_synonym SeqSet = "uint32 set"

datatype StatusItem =
  StatusMessages | StatusRecent | StatusUnseen | StatusUidNext | StatusUidValidity
  | StatusOther string

record MailboxStatus =
  Status_Name :: string
  Messages :: uint32
  Recent :: uint32
  Unseen :: uint32
  UidNext :: uint32
  UidValidity :: uint32

fun count_unseen :: "message list \<Rightarrow> int \<Rightarrow> int" where
  "count_unseen [] unseen = unseen"
| "count_unseen (msg # rest) unseen =
     count_unseen rest (if \<not> Seen msg then unseen + 1 else unseen)"

fun status_items :: "message list \<Rightarrow> StatusItem list \<Rightarrow> MailboxStatus \<Rightarrow> MailboxStatus" where
  "status_items msgs [] status = status"
| "status_items msgs (item # items) status =
     status_items msgs items
       (case item of
          StatusMessages \<Rightarrow> status\<lparr>Messages := word_of_int (int (length msgs))\<rparr>
        | StatusRecent \<Rightarrow> status\<lparr>Recent := 0\<rparr>
        | StatusUnseen \<Rightarrow> status\<lparr>Unseen := word_of_int (count_unseen msgs 0)\<rparr>
        | StatusUidNext \<Rightarrow> status\<lparr>UidNext := word_of_int (int (length msgs) + 1)\<rparr>
        | StatusUidValidity \<Rightarrow> status\<lparr>UidValidity := 1\<rparr>
        | StatusOther _ \<Rightarrow> status)"

definition Status :: "db \<Rightarrow> mailbox \<Rightarrow> StatusItem list \<Rightarrow> (error + MailboxStatus) \<times> db" where
  "Status d mb items =
     (case ListMessages d (Mailbox_ID mb) of
        (Inl e, d') \<Rightarrow> (Inl e, d')
      | (Inr msgs, d') \<Rightarrow>
          (Inr (status_items msgs items
                  \<lparr>Status_Name = Mailbox_Name mb, Messages = 0, Recent = 0, Unseen = 0,
                   UidNext = 0, UidValidity = 0\<rparr>), d'))"

subsection \<open>Listing messages for a range\<close>

datatype FetchItem =
  FetchEnvelope | FetchBody | FetchBodyStructure | FetchFlags | FetchInternalDate
  | FetchRFC822Size | FetchUid | FetchOther string

datatype flag = SeenFlag | DeletedFlag | DraftFlag | OtherFlag string

text \<open>\<open>MessageId\<close> is the decimal text of the number kept here.\<close>

record Envelope =
  Env_Date :: time
  Env_Subject :: string
  Env_From :: "string list"
  Env_To :: "string list"
  MessageId :: int

record BodyStructure =
  MIMEType :: string
  MIMESubType :: string
  BodyStructure_Size :: uint32

datatype item_value =
    EnvelopeValue Envelope
  | BodyStructureValue BodyStructure
  | FlagsValue "flag list"
  | TimeValue time
  | IntValue int
  | Int64Value int

record imap_Message =
  SeqNum :: uint32
  Uid :: uint32
  Items :: "FetchItem \<rightharpoonup> item_value"

definition message_flags :: "message \<Rightarrow> flag list" where
  "message_flags msg =
     (if Seen msg then [SeenFlag] else []) @
     (if Deleted msg then [DeletedFlag] else []) @
     (if Draft msg then [DraftFlag] else [])"

fun fetch_items ::
  "message \<Rightarrow> FetchItem list \<Rightarrow> (FetchItem \<rightharpoonup> item_value) \<Rightarrow> (FetchItem \<rightharpoonup> item_value)" where
  "fetch_items msg [] its = its"
| "fetch_items msg (item # items) its =
     fetch_items msg items
       (case item of
          FetchEnvelope \<Rightarrow> its(item \<mapsto> EnvelopeValue
            \<lparr>Env_Date = Date msg, Env_Subject = Subject msg, Env_From = [From msg],
             Env_To = [To msg], MessageId = ID msg\<rparr>)
        | FetchBody \<Rightarrow> its(item \<mapsto> BodyStructureValue
            \<lparr>MIMEType = ''text'', MIMESubType = ''plain'',
             BodyStructure_Size = word_of_int (int (length (Body msg)))\<rparr>)
        | FetchBodyStructure \<Rightarrow> its(item \<mapsto> BodyStructureValue
            \<lparr>MIMEType = ''text'', MIMESubType = ''plain'',
             BodyStructure_Size = word_of_int (int (length (Body msg)))\<rparr>)
        | FetchFlags \<Rightarrow> its(item \<mapsto> FlagsValue (message_flags msg))
        | FetchInternalDate \<Rightarrow> its(item \<mapsto> TimeValue (Date msg))
        | FetchRFC822Size \<Rightarrow> its(item \<mapsto> IntValue (Size msg))
        | FetchUid \<Rightarrow> its(item \<mapsto> Int64Value (ID msg))
        | FetchOther _ \<Rightarrow> its)"

text \<open>
  The loop over the listing; \<open>i\<close> is the loop index. The \<open>uid\<close> argument of the method is
  not read: the set is always matched against the sequence number.
\<close>

fun fetch_loop :: "SeqSet \<Rightarrow> FetchItem list \<Rightarrow> nat \<Rightarrow> message list \<Rightarrow> imap_Message list" where
  "fetch_loop seqSet items i [] = []"
| "fetch_loop seqSet items i (msg # rest) =
     (let seqNum = (word_of_int (int i + 1) :: uint32) in
      if seqNum \<in> seqSet
      then \<lparr>SeqNum = seqNum, Uid = word_of_int (ID msg),
            Items = fetch_items msg items Map.empty\<rparr> # fetch_loop seqSet items (i + 1) rest
      else fetch_loop seqSet items (i + 1) rest)"

definition IMAPMailbox_ListMessages ::
  "db \<Rightarrow> mailbox \<Rightarrow> bool \<Rightarrow> SeqSet \<Rightarrow> FetchItem list \<Rightarrow> (error option \<times> imap_Message list) \<times> db" where
  "IMAPMailbox_ListMessages d mb uid seqSet items =
     (case ListMessages d (Mailbox_ID mb) of
        (Inl e, d') \<Rightarrow> ((Some e, []), d')
      | (Inr msgs, d') \<Rightarrow> ((None, fetch_loop seqSet items 0 msgs), d'))"

subsection \<open>Search\<close>

text \<open>
  The criteria as the method reads them. A nil set is \<open>None\<close>; an unset date is the zero
  time. The header, body and text criteria are tested for nil and then nothing is done
  with them.
\<close>

record SearchCriteria =
  cSeqNum :: "SeqSet option"
  cUid :: "SeqSet option"
  cSince :: time
  cBefore :: time
  cSeen :: bool
  cUnseen :: bool
  cDeleted :: bool
  cUndeleted :: bool
  cDraft :: bool
  cUndraft :: bool
  cHeader :: "(string \<times> string) list option"
  cBody :: "string list option"
  cText :: "string list option"

text \<open>One pass of the loop body: does the message reach the \<open>append\<close>?\<close>

definition search_match :: "SearchCriteria \<Rightarrow> uint32 \<Rightarrow> message \<Rightarrow> bool" where
  "search_match criteria seqNum msg =
     (if (case cSeqNum criteria of None \<Rightarrow> False | Some s \<Rightarrow> seqNum \<notin> s) then False
      else if (case cUid criteria of None \<Rightarrow> False | Some s \<Rightarrow> word_of_int (ID msg) \<notin> s) then False
      else if cSince criteria \<noteq> zero_time \<and> Before (Date msg) (cSince criteria) then False
      else if cBefore criteria \<noteq> zero_time \<and> After (Date msg) (cBefore criteria) then False
      else if cSeen criteria \<and> \<not> Seen msg then False
      else if cUnseen criteria \<and> Seen msg then False
      else if cDeleted criteria \<and> \<not> Deleted msg then False
      else if cUndeleted criteria \<and> Deleted msg then False
      else if cDraft criteria \<and> \<not> Draft msg then False
      else if cUndraft criteria \<and> Draft msg then False
      else True)"

fun search_loop :: "bool \<Rightarrow> SearchCriteria \<Rightarrow> nat \<Rightarrow> message list \<Rightarrow> uint32 list" where
  "search_loop uid criteria i [] = []"
| "search_loop uid criteria i (msg # rest) =
     (let seqNum = (word_of_int (int i + 1) :: uint32) in
      if search_match criteria seqNum msg
      then (if uid then word_of_int (ID msg) else seqNum) # search_loop uid criteria (i + 1) rest
      else search_loop uid criteria (i + 1) rest)"

definition SearchMessages ::
  "db \<Rightarrow> mailbox \<Rightarrow> bool \<Rightarrow> SearchCriteria \<Rightarrow> (error + uint32 list) \<times> db" where
  "SearchMessages d mb uid criteria =
     (case ListMessages d (Mailbox_ID mb) of
        (Inl e, d') \<Rightarrow> (Inl e, d')
      | (Inr msgs, d') \<Rightarrow> (Inr (search_loop uid criteria 0 msgs), d'))"

subsection \<open>Flag update\<close>

datatype FlagsOp = SetFlags | AddFlags | RemoveFlags

text \<open>The inner loop over the requested flags, on the three local variables.\<close>

fun apply_flags :: "flag list \<Rightarrow> bool \<times> bool \<times> bool \<Rightarrow> bool \<times> bool \<times> bool" where
  "apply_flags [] sdd = sdd"
| "apply_flags (f # fs) (seen, deleted, draft) =
     apply_flags fs
       (case f of
          SeenFlag \<Rightarrow> (True, deleted, draft)
        | DeletedFlag \<Rightarrow> (seen, True, draft)
        | DraftFlag \<Rightarrow> (seen, deleted, True)
        | OtherFlag _ \<Rightarrow> (seen, deleted, draft))"

fun update_loop :: "db \<Rightarrow> SeqSet \<Rightarrow> flag list \<Rightarrow> nat \<Rightarrow> message list \<Rightarrow> error option \<times> db" where
  "update_loop d seqSet flags i [] = (None, d)"
| "update_loop d seqSet flags i (msg # rest) =
     (if (word_of_int (int i + 1) :: uint32) \<in> seqSet
      then (case apply_flags flags (Seen msg, Deleted msg, Draft msg) of
              (seen, deleted, draft) \<Rightarrow>
                (case UpdateMessageFlags d (ID msg) [] seen deleted draft of
                   (Some e, d') \<Rightarrow> (Some e, d')
                 | (None, d') \<Rightarrow> update_loop d' seqSet flags (i + 1) rest))
      else update_loop d seqSet flags (i + 1) rest)"

definition UpdateMessagesFlags ::
  "db \<Rightarrow> mailbox \<Rightarrow> bool \<Rightarrow> SeqSet \<Rightarrow> FlagsOp \<Rightarrow> flag list \<Rightarrow> error option \<times> db" where
  "UpdateMessagesFlags d mb uid seqSet operation flags =
     (case ListMessages d (Mailbox_ID mb) of
        (Inl e, d') \<Rightarrow> (Some e, d')
      | (Inr msgs, d') \<Rightarrow> update_loop d' seqSet flags 0 msgs)"

subsection \<open>Expunge\<close>

fun expunge_loop :: "db \<Rightarrow> message list \<Rightarrow> error option \<times> db" where
  "expunge_loop d [] = (None, d)"
| "expunge_loop d (msg # rest) =
     (if Deleted msg
      then (case DeleteMessage d (ID msg) of
              (Some e, d') \<Rightarrow> (Some e, d')
            | (None, d') \<Rightarrow> expunge_loop d' rest)
      else expunge_loop d rest)"

definition Expunge :: "db \<Rightarrow> mailbox \<Rightarrow> error option \<times> db" where
  "Expunge d mb =
     (case ListMessages d (Mailbox_ID mb) of
        (Inl e, d') \<Rightarrow> (Some e, d')
      | (Inr msgs, d') \<Rightarrow> expunge_loop d' msgs)"

section \<open>Submission session adapter (server/smtp.go)\<close>

record SMTPSession =
  session_user :: user
  session_from :: string
  session_to :: "string list"

definition Login :: "db \<Rightarrow> string \<Rightarrow> string \<Rightarrow> (error + SMTPSession) \<times> db" where
  "Login d username password =
     (case AuthenticateUser d username password of
        (Inl e, d') \<Rightarrow> (Inl e, d')
      | (Inr u, d') \<Rightarrow> (Inr \<lparr>session_user = u, session_from = [], session_to = []\<rparr>, d'))"

definition AnonymousLogin :: "error + SMTPSession" where
  "AnonymousLogin = Inl ErrAnonymous"

definition Mail :: "SMTPSession \<Rightarrow> string \<Rightarrow> SMTPSession" where
  "Mail s from = s\<lparr>session_from := from\<rparr>"

definition Rcpt :: "SMTPSession \<Rightarrow> string \<Rightarrow> SMTPSession" where
  "Rcpt s to = s\<lparr>session_to := session_to s @ [to]\<rparr>"

definition Reset :: "SMTPSession \<Rightarrow> SMTPSession" where
  "Reset s = s\<lparr>session_from := [], session_to := []\<rparr>"

fun Join :: "string list \<Rightarrow> string \<Rightarrow> string" where
  "Join [] sep = []"
| "Join [x] sep = x"
| "Join (x # y # ys) sep = x @ sep @ Join (y # ys) sep"

text \<open>
  \<open>Data\<close>. \<open>r\<close> is what \<open>io.ReadAll\<close> makes of the reader the engine hands over: the
  whole payload or a read error. \<open>now\<close> is the clock read for \<open>Date\<close>, \<open>now'\<close> the one
  \<open>CreateMessage\<close> reads for \<open>Created\<close>. The struct literal leaves \<open>UID\<close>, \<open>Cc\<close>,
  \<open>Subject\<close>, \<open>Flags\<close> and the three flags at their zero values.
\<close>

definition Data :: "db \<Rightarrow> SMTPSession \<Rightarrow> time \<Rightarrow> time \<Rightarrow> error + string \<Rightarrow> error option \<times> db" where
  "Data d s now now' r =
     (case r of
        Inl e \<Rightarrow> (Some e, d)
      | Inr body \<Rightarrow>
          (case GetMailbox d (User_ID (session_user s)) ''INBOX'' of
             (Inl e, d') \<Rightarrow> (Some e, d')
           | (Inr mailbox, d') \<Rightarrow>
               CreateMessage d' now'
                 \<lparr>ID = 0, MailboxID = Mailbox_ID mailbox, UID = 0, From = session_from s,
                  To = Join (session_to s) '','', Cc = [], Subject = [], Date = now,
                  Body = body, RawData = body, Flags = [], Size = int (length body),
                  Seen = False, Deleted = False, Draft = False, Created = zero_time\<rparr>))"

subsection \<open>Server settings (smtp.go:110-124, config/config.go:30-37)\<close>

record SMTPConfig =
  cfg_Address :: string
  cfg_Port :: int
  cfg_Domain :: string
  cfg_AllowInsecure :: bool
  cfg_MaxMessageBytes :: int

text \<open>Timeouts are in seconds; the address and the port are kept apart.\<close>

record smtp_Server =
  Addr :: "string \<times> int"
  Domain :: string
  ReadTimeout :: int
  WriteTimeout :: int
  MaxMessageBytes :: int
  MaxRecipients :: int
  AllowInsecureAuth :: bool

definition StartSMTPServer :: "SMTPConfig \<Rightarrow> smtp_Server" where
  "StartSMTPServer cfg =
     \<lparr>Addr = (cfg_Address cfg, cfg_Port cfg), Domain = cfg_Domain cfg,
      ReadTimeout = 10, WriteTimeout = 10, MaxMessageBytes = 1024 * 1024,
      MaxRecipients = 50, AllowInsecureAuth = True\<rparr>"

text \<open>
  The size bound is applied by the protocol engine, which is not part of the repository:
  when the server's \<open>MaxMessageBytes\<close> is positive, the reader it hands to \<open>Data\<close> gives
  out at most that many bytes and fails on the read after them, before it sees the end
  of the data; so it yields a payload shorter than the bound and refuses one that
  reaches it.
\<close>

definition data_reader :: "smtp_Server \<Rightarrow> string \<Rightarrow> error + string" where
  "data_reader srv payload =
     (if 0 < MaxMessageBytes srv \<and> MaxMessageBytes srv \<le> int (length payload)
      then Inl ErrTooLarge else Inr payload)"

section \<open>Maildrop session (server/pop3.go)\<close>

text \<open>
  \<open>handleConnection\<close> writes the greeting and then reads from the connection until a
  read fails; what it reads is converted to a string and not looked at. The connection
  is the list of reads still to come: a chunk of bytes or a read error, and past the end
  of the list the peer has closed, which is a read error too.
\<close>

datatype read = ReadBytes string | ReadError

definition crlf :: string where
  "crlf = [CHR 0x0D, CHR 0x0A]"

definition greeting :: string where
  "greeting = ''+OK SimpleEmail POP3 server ready'' @ crlf"

fun read_commands :: "db \<Rightarrow> read list \<Rightarrow> db" where
  "read_commands d [] = d"
| "read_commands d (ReadError # rest) = d"
| "read_commands d (ReadBytes cmd # rest) = read_commands d rest"

definition handleConnection :: "db \<Rightarrow> read list \<Rightarrow> string list \<times> db" where
  "handleConnection d conn = ([greeting], read_commands d conn)"

section \<open>Notions the properties are stated with\<close>

text \<open>
  The sequence number of a message is its 1-based position in the listing.
  \<open>numbered msgs\<close> pairs every message with it; \<open>selected seqSet msgs\<close> are the
  messages whose sequence number, as the 32-bit value the adapter computes, lies in the
  set.
\<close>

definition numbered :: "message list \<Rightarrow> (nat \<times> message) list" where
  "numbered msgs = enumerate 1 msgs"

definition selected :: "SeqSet \<Rightarrow> message list \<Rightarrow> message list" where
  "selected seqSet msgs = map snd (filter (\<lambda>(k, m). of_nat k \<in> seqSet) (numbered msgs))"

text \<open>
  The structural criteria that were supplied all hold of a message: a set criterion that
  was given contains the sequence number, respectively the row id as a 32-bit value; a
  date criterion that was given (differs from the zero time value) bounds the instant of
  the date, both bounds included; a flag criterion that was given agrees with the flag.
  Header, body and text criteria are no part of this predicate: it is used for searches
  that supply none of them.
\<close>

definition satisfies_structural_criteria :: "SearchCriteria \<Rightarrow> uint32 \<Rightarrow> message \<Rightarrow> bool" where
  "satisfies_structural_criteria c seqNum msg =
     ((case cSeqNum c of None \<Rightarrow> True | Some s \<Rightarrow> seqNum \<in> s) \<and>
      (case cUid c of None \<Rightarrow> True | Some s \<Rightarrow> word_of_int (ID msg) \<in> s) \<and>
      (cSince c = zero_time \<or> instant (cSince c) \<le> instant (Date msg)) \<and>
      (cBefore c = zero_time \<or> instant (Date msg) \<le> instant (cBefore c)) \<and>
      (if cSeen c then Seen msg else True) \<and>
      (if cUnseen c then \<not> Seen msg else True) \<and>
      (if cDeleted c then Deleted msg else True) \<and>
      (if cUndeleted c then \<not> Deleted msg else True) \<and>
      (if cDraft c then Draft msg else True) \<and>
      (if cUndraft c then \<not> Draft msg else True))"


text \<open>
  Row ids are issued once: the message rows have pairwise different ids, all below the
  next id of the table.
\<close>

definition ids_issued_once :: "db \<Rightarrow> bool" where
  "ids_issued_once d =
     (distinct (map ID (messages d)) \<and> list_all (\<lambda>m. ID m < next_message_id d) (messages d))"


section \<open>Example data\<close>

text \<open>The instant \<open>n\<close> in UTC.\<close>

definition at :: "int \<Rightarrow> time" where
  "at n = \<lparr>instant = n, zone = ''UTC''\<rparr>"

definition alice :: user where
  "alice = \<lparr>User_ID = 0, Username = ''alice'', Password = ''secret'', User_Name = ''Alice'',
     Email = ''alice@example.org'', User_Created = zero_time, Updated = zero_time\<rparr>"

definition inbox :: mailbox where
  "inbox = \<lparr>Mailbox_ID = 1, UserID = 1, Mailbox_Name = ''INBOX'', Path = ''INBOX''\<rparr>"

definition new_message :: "int \<Rightarrow> uint32 \<Rightarrow> int \<Rightarrow> message" where
  "new_message mb uid date =
     \<lparr>ID = 0, MailboxID = mb, UID = uid, From = ''bob'', To = ''alice'', Cc = [],
      Subject = ''hi'', Date = at date, Body = ''hello'', RawData = ''hello'', Flags = [],
      Size = 5, Seen = False, Deleted = False, Draft = False, Created = zero_time\<rparr>"

text \<open>The store after \<open>CreateUser\<close> of \<open>alice\<close> on a fresh store, at time 100.\<close>

definition with_alice :: "engine \<Rightarrow> db" where
  "with_alice e = snd (CreateUser (Open e) (at 100) alice)"

text \<open>Then one message with \<open>uid\<close> 5 and date 150 in her \<open>INBOX\<close>, stored at time 200.\<close>

definition one_message :: "engine \<Rightarrow> db" where
  "one_message e = snd (CreateMessage (with_alice e) (at 200) (new_message 1 5 150))"

text \<open>Then a second one with \<open>uid\<close> 3 and date 160, stored at time 210.\<close>

definition two_messages :: "engine \<Rightarrow> db" where
  "two_messages e = snd (CreateMessage (one_message e) (at 210) (new_message 1 3 160))"

definition no_criteria :: SearchCriteria where
  "no_criteria =
     \<lparr>cSeqNum = None, cUid = None, cSince = zero_time, cBefore = zero_time,
      cSeen = False, cUnseen = False, cDeleted = False, cUndeleted = False,
      cDraft = False, cUndraft = False, cHeader = None, cBody = None, cText = None\<rparr>"

text \<open>
  The session \<open>Login\<close> gives \<open>alice\<close>, after \<open>Mail\<close> and one \<open>Rcpt\<close>.
\<close>

definition alice_session :: SMTPSession where
  "alice_session =
     \<lparr>session_user = alice\<lparr>User_ID := 1, User_Created := at 100, Updated := at 100\<rparr>,
      session_from = ''bob@example.org'', session_to = [''alice@example.org'']\<rparr>"

text \<open>The store after one submission, and after a second one.\<close>

definition one_submission :: "engine \<Rightarrow> db" where
  "one_submission e = snd (Data (with_alice e) alice_session (at 150) (at 200) (Inr ''hello''))"

definition two_submissions :: "engine \<Rightarrow> db" where
  "two_submissions e = snd (Data (one_submission e) alice_session (at 160) (at 210) (Inr ''again''))"



text \<open>The one-message store with an attachment added to the message at time 220.\<close>

definition with_attachment :: "engine \<Rightarrow> db" where
  "with_attachment e =
     snd (CreateAttachment (one_message e) (at 220)
            \<lparr>Attachment_ID = 0, MessageID = 1, Filename = ''a.txt'', MimeType = ''text/plain'',
             Attachment_Data = ''abc'', Attachment_Size = 3, Attachment_Created = zero_time\<rparr>)"

text \<open>A configuration that sets the maximum message size to 100 bytes, and two payloads.\<close>

definition small_limit :: SMTPConfig where
  "small_limit =
     \<lparr>cfg_Address = ''0.0.0.0'', cfg_Port = 25, cfg_Domain = ''localhost'',
      cfg_AllowInsecure = False, cfg_MaxMessageBytes = 100\<rparr>"

definition payload_200 :: string where
  "payload_200 = replicate 200 (CHR ''x'')"

text \<open>A maildrop session: log in, mark message 1 deleted, quit; then the peer closes.\<close>

definition dele_quit :: "read list" where
  "dele_quit =
     [ReadBytes (''USER alice'' @ crlf), ReadBytes (''PASS secret'' @ crlf),
      ReadBytes (''DELE 1'' @ crlf), ReadBytes (''QUIT'' @ crlf)]"



text \<open>The row of the \<open>i\<close>-th default mailbox created for user \<open>uid\<close>, ids starting at \<open>n\<close>.\<close>

definition default_rows :: "int \<Rightarrow> int \<Rightarrow> string list \<Rightarrow> mailbox list" where
  "default_rows n uid names =
     map (\<lambda>(i, name). \<lparr>Mailbox_ID = n + int i, UserID = uid, Mailbox_Name = name, Path = name\<rparr>)
       (enumerate 0 names)"

section \<open>Running the store on the example data\<close>

lemmas store_defs =
  CreateUser_def CreateMailbox_def CreateMessage_def Open_def failing_def advance_def
  foreign_keys_def default_mailboxes_def ListMessages_def select_messages_def

lemma with_alice_eq:
  "with_alice e =
     \<lparr>engine = e,
      users = [\<lparr>User_ID = 1, Username = ''alice'', Password = ''secret'', User_Name = ''Alice'',
                Email = ''alice@example.org'', User_Created = at 100, Updated = at 100\<rparr>],
      mailboxes =
        [\<lparr>Mailbox_ID = 1, UserID = 1, Mailbox_Name = ''INBOX'', Path = ''INBOX''\<rparr>,
         \<lparr>Mailbox_ID = 2, UserID = 1, Mailbox_Name = ''Sent'', Path = ''Sent''\<rparr>,
         \<lparr>Mailbox_ID = 3, UserID = 1, Mailbox_Name = ''Drafts'', Path = ''Drafts''\<rparr>,
         \<lparr>Mailbox_ID = 4, UserID = 1, Mailbox_Name = ''Trash'', Path = ''Trash''\<rparr>],
      messages = [], attachments = [], next_user_id = 2, next_mailbox_id = 5,
      next_message_id = 1, next_attachment_id = 1, faults = []\<rparr>"
  by (simp add: with_alice_def alice_def store_defs)

lemma one_message_eq:
  "one_message e = (with_alice e)\<lparr>
     messages := [(new_message 1 5 150)\<lparr>ID := 1, Created := at 200\<rparr>], next_message_id := 2\<rparr>"
  by (simp add: one_message_def with_alice_eq new_message_def store_defs)

lemma two_messages_eq:
  "two_messages e = (with_alice e)\<lparr>
     messages := [(new_message 1 5 150)\<lparr>ID := 1, Created := at 200\<rparr>,
                  (new_message 1 3 160)\<lparr>ID := 2, Created := at 210\<rparr>],
     next_message_id := 3\<rparr>"
  by (simp add: two_messages_def one_message_eq with_alice_eq new_message_def store_defs)

lemma select_one_message:
  "select_messages (one_message e) 1 = [(new_message 1 5 150)\<lparr>ID := 1, Created := at 200\<rparr>]"
  by (simp add: one_message_eq with_alice_eq new_message_def select_messages_def)

lemma select_two_messages:
  "select_messages (two_messages e) 1 =
     [(new_message 1 3 160)\<lparr>ID := 2, Created := at 210\<rparr>,
      (new_message 1 5 150)\<lparr>ID := 1, Created := at 200\<rparr>]"
  by (simp add: two_messages_eq with_alice_eq new_message_def select_messages_def)

lemma healthy_examples:
  "failing (with_alice e) = False" "failing (one_message e) = False"
  "failing (two_messages e) = False"
  by (simp_all add: two_messages_eq one_message_eq with_alice_eq failing_def)

lemma alice_session_Login:
  "map_sum id (\<lambda>s. Rcpt (Mail s ''bob@example.org'') ''alice@example.org'')
     (fst (Login (with_alice e) ''alice'' ''secret'')) = Inr alice_session"
  by (simp add: Login_def AuthenticateUser_def GetUser_def Mail_def Rcpt_def alice_session_def
      alice_def with_alice_eq failing_def)

section \<open>Status\<close>

lemma count_unseen_eq:
  "count_unseen msgs n = n + int (length (filter (\<lambda>m. \<not> Seen m) msgs))"
  by (induction msgs arbitrary: n) auto

lemma status_items_Name: "Status_Name (status_items msgs items st) = Status_Name st"
  by (induction items arbitrary: st) (auto split: StatusItem.splits)

lemma status_items_Messages:
  "Messages (status_items msgs items st) =
     (if StatusMessages \<in> set items then word_of_int (int (length msgs)) else Messages st)"
  by (induction items arbitrary: st) (auto split: StatusItem.splits)

lemma status_items_Recent:
  "Recent (status_items msgs items st) = (if StatusRecent \<in> set items then 0 else Recent st)"
  by (induction items arbitrary: st) (auto split: StatusItem.splits)

lemma status_items_Unseen:
  "Unseen (status_items msgs items st) =
     (if StatusUnseen \<in> set items then word_of_int (count_unseen msgs 0) else Unseen st)"
  by (induction items arbitrary: st) (auto split: StatusItem.splits)

lemma status_items_UidNext:
  "UidNext (status_items msgs items st) =
     (if StatusUidNext \<in> set items then word_of_int (int (length msgs) + 1) else UidNext st)"
  by (induction items arbitrary: st) (auto split: StatusItem.splits)

lemma status_items_UidValidity:
  "UidValidity (status_items msgs items st) =
     (if StatusUidValidity \<in> set items then 1 else UidValidity st)"
  by (induction items arbitrary: st) (auto split: StatusItem.splits)

lemma length_select_messages:
  "length (select_messages d i) = length (filter (\<lambda>m. MailboxID m = i) (messages d))"
  by (simp add: select_messages_def)

lemma filter_sort_key: "filter P (sort_key f xs) = sort_key f (filter P xs)"
  by (induction xs) (auto simp: filter_insort_triv filter_insort)

lemma unseen_select_messages:
  "length (filter (\<lambda>m. \<not> Seen m) (select_messages d i)) =
   length (filter (\<lambda>m. MailboxID m = i \<and> \<not> Seen m) (messages d))"
  by (simp add: select_messages_def filter_sort_key conj_commute)

text \<open>
  Claim C5, as amended. When the listing succeeds, Status reports, for each item that
  was requested, the message count as the number of stored messages of the mailbox,
  the unseen count as the number of those with \<open>seen = false\<close>, the next-UID hint as the
  message count plus 1 (not the largest UID plus 1), and the UID validity 1; all as
  32-bit values, and 0 for an item that was not requested.
\<close>

theorem Status_reports:
  "fst (Status d mb items) = Inr st \<Longrightarrow>
     Status_Name st = Mailbox_Name mb \<and>
     Messages st =
       (if StatusMessages \<in> set items
        then of_nat (length (filter (\<lambda>m. MailboxID m = Mailbox_ID mb) (messages d))) else 0) \<and>
     Unseen st =
       (if StatusUnseen \<in> set items
        then of_nat (length (filter (\<lambda>m. MailboxID m = Mailbox_ID mb \<and> \<not> Seen m) (messages d)))
        else 0) \<and>
     UidNext st =
       (if StatusUidNext \<in> set items
        then of_nat (length (filter (\<lambda>m. MailboxID m = Mailbox_ID mb) (messages d))) + 1 else 0) \<and>
     UidValidity st = (if StatusUidValidity \<in> set items then 1 else 0) \<and>
     Recent st = 0"
  by (auto simp: Status_def ListMessages_def status_items_Name status_items_Messages
      status_items_Recent status_items_Unseen status_items_UidNext status_items_UidValidity
      count_unseen_eq length_select_messages unseen_select_messages split: if_splits)

lemma Status_returns:
  "\<not> failing d \<Longrightarrow> \<exists>st. fst (Status d mb items) = Inr st"
  by (simp add: Status_def ListMessages_def)

lemma Status_one_message:
  "fst (Status (one_message e) inbox [StatusMessages, StatusUnseen, StatusUidNext, StatusUidValidity]) =
     Inr \<lparr>Status_Name = ''INBOX'', Messages = 1, Recent = 0, Unseen = 1, UidNext = 2,
          UidValidity = 1\<rparr>"
  by (simp add: Status_def ListMessages_def healthy_examples select_one_message inbox_def
      new_message_def)

theorem Status_reports_witness:
  "fst (Status (one_message Postgres) inbox
          [StatusMessages, StatusUnseen, StatusUidNext, StatusUidValidity]) =
     Inr \<lparr>Status_Name = ''INBOX'', Messages = 1, Recent = 0, Unseen = 1, UidNext = 2,
          UidValidity = 1\<rparr> \<and>
   length (filter (\<lambda>m. MailboxID m = Mailbox_ID inbox) (messages (one_message Postgres))) = 1 \<and>
   length (filter (\<lambda>m. MailboxID m = Mailbox_ID inbox \<and> \<not> Seen m)
             (messages (one_message Postgres))) = 1"
proof -
  have run: "fst (Status (one_message Postgres) inbox
                [StatusMessages, StatusUnseen, StatusUidNext, StatusUidValidity]) =
     Inr \<lparr>Status_Name = ''INBOX'', Messages = 1, Recent = 0, Unseen = 1, UidNext = 2,
          UidValidity = 1\<rparr>"
    by (rule Status_one_message)
  from Status_reports [OF run]
  have "length (filter (\<lambda>m. MailboxID m = Mailbox_ID inbox) (messages (one_message Postgres))) = 1 \<and>
        length (filter (\<lambda>m. MailboxID m = Mailbox_ID inbox \<and> \<not> Seen m)
                  (messages (one_message Postgres))) = 1"
    by (simp add: one_message_eq with_alice_eq inbox_def new_message_def)
  with run show ?thesis by (rule conjI)
qed

text \<open>
  The claim as first stated fails: the only message of the mailbox has UID 5, so the
  largest UID plus 1 is 6, and the hint reported is 2.
\<close>

theorem Status_UidNext_counterexample:
  "map UID (select_messages (one_message Postgres) (Mailbox_ID inbox)) = [5] \<and>
   map_sum id UidNext (fst (Status (one_message Postgres) inbox [StatusUidNext])) = Inr 2 \<and>
   (2 :: uint32) \<noteq> 5 + 1"
  by (simp add: Status_def ListMessages_def healthy_examples select_one_message inbox_def
      new_message_def)

section \<open>Search and listing for a range\<close>

lemma search_loop_eq:
  "search_loop uid c i msgs =
     map (\<lambda>(k, m). if uid then word_of_int (ID m) else of_nat k)
       (filter (\<lambda>(k, m). search_match c (of_nat k) m) (enumerate (Suc i) msgs))"
  by (induction msgs arbitrary: i) (auto simp: Let_def add.commute)

lemma search_match_iff: "search_match c sn m = satisfies_structural_criteria c sn m"
  by (auto simp: search_match_def satisfies_structural_criteria_def Before_def After_def
      split: option.splits)

lemma search_match_ignores:
  "search_match (c\<lparr>cHeader := h, cBody := b, cText := t\<rparr>) sn m = search_match c sn m"
  by (simp add: search_match_def)

lemma fetch_items_FetchUid:
  "fetch_items msg items its FetchUid =
     (if FetchUid \<in> set items then Some (Int64Value (ID msg)) else its FetchUid)"
  by (induction items arbitrary: its) (auto split: FetchItem.splits)

lemma fetch_loop_eq:
  "fetch_loop S items i msgs =
     map (\<lambda>(k, m). \<lparr>SeqNum = of_nat k, Uid = word_of_int (ID m),
                     Items = fetch_items m items Map.empty\<rparr>)
       (filter (\<lambda>(k, m). of_nat k \<in> S) (enumerate (Suc i) msgs))"
  by (induction msgs arbitrary: i) (auto simp: Let_def add.commute)

lemma sorted_wrt_fst_enumerate: "sorted_wrt (<) (map fst (filter P (enumerate n xs)))"
proof -
  have "sorted_wrt (<) (map fst (enumerate n xs))"
    by (simp add: map_fst_enumerate)
  then show ?thesis
    by (metis (no_types) sorted_wrt_filter sorted_wrt_map)
qed

lemma strict_mono_of_nat_below:
  "sorted_wrt (<) ks \<Longrightarrow> list_all (\<lambda>k. k < 2 ^ 32) ks \<Longrightarrow>
     sorted_wrt (<) (map (of_nat :: nat \<Rightarrow> uint32) ks)"
  by (induction ks) (auto simp: list_all_iff word_less_nat_alt unat_of_nat)

lemma numbered_below:
  "length msgs < 2 ^ 32 \<Longrightarrow> list_all (\<lambda>k. k < 2 ^ 32) (map fst (filter P (numbered msgs)))"
  by (auto simp: list_all_iff numbered_def in_set_enumerate_eq)

lemma sequence_numbers_ascend:
  assumes "length msgs < 2 ^ 32"
  shows "sorted_wrt (<) (map (\<lambda>(k, m). (of_nat k :: uint32)) (filter P (numbered msgs)))"
proof -
  have "sorted_wrt (<) (map (of_nat :: nat \<Rightarrow> uint32) (map fst (filter P (numbered msgs))))"
    using assms
    by (intro strict_mono_of_nat_below numbered_below) (simp add: numbered_def sorted_wrt_fst_enumerate)
  then show ?thesis
    by (simp add: case_prod_unfold comp_def)
qed

lemma search_loop_numbered:
  "search_loop uid c 0 msgs =
     map (\<lambda>(k, m). if uid then word_of_int (ID m) else of_nat k)
       (filter (\<lambda>(k, m). satisfies_structural_criteria c (of_nat k) m) (numbered msgs))"
  by (simp add: search_loop_eq search_match_iff numbered_def)

lemma fetch_loop_selected:
  "fetch_loop S items 0 msgs =
     map (\<lambda>(k, m). \<lparr>SeqNum = of_nat k, Uid = word_of_int (ID m),
                     Items = fetch_items m items Map.empty\<rparr>)
       (filter (\<lambda>(k, m). of_nat k \<in> S) (numbered msgs))"
  by (simp add: fetch_loop_eq numbered_def)

lemma SearchMessages_returns:
  "\<not> failing d \<Longrightarrow>
     fst (SearchMessages d mb uid c) = Inr (search_loop uid c 0 (select_messages d (Mailbox_ID mb)))"
  by (simp add: SearchMessages_def ListMessages_def)

lemma SearchMessages_fails:
  "failing d \<Longrightarrow> fst (SearchMessages d mb uid c) = Inl ErrStore"
  by (simp add: SearchMessages_def ListMessages_def)

text \<open>
  The header, body and text criteria are tested for nil and not evaluated: the search
  does not depend on them.
\<close>

lemma SearchMessages_ignores_header_body_text:
  "SearchMessages d mb uid (c\<lparr>cHeader := h, cBody := b, cText := t\<rparr>) = SearchMessages d mb uid c"
proof -
  have "search_loop uid (c\<lparr>cHeader := h, cBody := b, cText := t\<rparr>) i msgs =
      search_loop uid c i msgs" for i msgs
    by (simp add: search_loop_eq search_match_ignores)
  then show ?thesis
    by (simp add: SearchMessages_def ListMessages_def)
qed

text \<open>
  Claim C4, as amended. For a search that supplies no header, body or text criterion:
  the search fails only when the listing does, and otherwise a message is in the result
  iff it satisfies all supplied criteria together, where a date criterion counts as
  supplied when it differs from the zero time value, a since-date excludes exactly the
  messages dated strictly earlier and a before-date excludes exactly the messages dated
  strictly later (a message dated at the before-date itself stays in). The result
  follows the listing: in sequence-number mode it holds the sequence numbers of the
  matches, strictly ascending for a listing of fewer than \<open>2 ^ 32\<close> messages; in UID mode
  it holds their row ids as 32-bit values, in listing order.
\<close>

theorem SearchMessages_result:
  assumes "cHeader c = None" and "cBody c = None" and "cText c = None"
  shows "fst (SearchMessages d mb uid c) =
       (if failing d then Inl ErrStore
        else Inr (map (\<lambda>(k, m). if uid then word_of_int (ID m) else of_nat k)
               (filter (\<lambda>(k, m). satisfies_structural_criteria c (of_nat k) m)
                  (numbered (select_messages d (Mailbox_ID mb)))))) \<and>
     (length (select_messages d (Mailbox_ID mb)) < 2 ^ 32 \<longrightarrow>
      sorted_wrt (<)
        (map (\<lambda>(k, m). of_nat k :: uint32)
           (filter (\<lambda>(k, m). satisfies_structural_criteria c (of_nat k) m)
              (numbered (select_messages d (Mailbox_ID mb))))))"
proof (intro conjI impI)
  show "fst (SearchMessages d mb uid c) =
       (if failing d then Inl ErrStore
        else Inr (map (\<lambda>(k, m). if uid then word_of_int (ID m) else of_nat k)
               (filter (\<lambda>(k, m). satisfies_structural_criteria c (of_nat k) m)
                  (numbered (select_messages d (Mailbox_ID mb))))))"
    by (simp add: SearchMessages_returns SearchMessages_fails search_loop_numbered)
next
  assume "length (select_messages d (Mailbox_ID mb)) < 2 ^ 32"
  then show "sorted_wrt (<)
        (map (\<lambda>(k, m). of_nat k :: uint32)
           (filter (\<lambda>(k, m). satisfies_structural_criteria c (of_nat k) m)
              (numbered (select_messages d (Mailbox_ID mb)))))"
    by (rule sequence_numbers_ascend)
qed

lemma search_unseen_since:
  "fst (SearchMessages (two_messages e) inbox False (no_criteria\<lparr>cUnseen := True, cSince := at 155\<rparr>))
     = Inr [1]"
  by (simp add: SearchMessages_returns healthy_examples select_two_messages inbox_def
      new_message_def no_criteria_def search_match_def zero_time_def at_def Before_def After_def)

theorem SearchMessages_result_witness:
  "cHeader (no_criteria\<lparr>cUnseen := True, cSince := at 155\<rparr>) = None \<and>
   cBody (no_criteria\<lparr>cUnseen := True, cSince := at 155\<rparr>) = None \<and>
   cText (no_criteria\<lparr>cUnseen := True, cSince := at 155\<rparr>) = None \<and>
   fst (SearchMessages (two_messages Postgres) inbox False
          (no_criteria\<lparr>cUnseen := True, cSince := at 155\<rparr>)) = Inr [1] \<and>
   Inr [1 :: uint32] =
     (if failing (two_messages Postgres) then Inl ErrStore
      else Inr (map (\<lambda>(k, m). if False then word_of_int (ID m) else of_nat k)
         (filter (\<lambda>(k, m). satisfies_structural_criteria
                     (no_criteria\<lparr>cUnseen := True, cSince := at 155\<rparr>) (of_nat k) m)
            (numbered (select_messages (two_messages Postgres) (Mailbox_ID inbox)))))) \<and>
   length (select_messages (two_messages Postgres) (Mailbox_ID inbox)) < 2 ^ 32 \<and>
   sorted_wrt (<)
     (map (\<lambda>(k, m). of_nat k :: uint32)
        (filter (\<lambda>(k, m). satisfies_structural_criteria
                    (no_criteria\<lparr>cUnseen := True, cSince := at 155\<rparr>) (of_nat k) m)
           (numbered (select_messages (two_messages Postgres) (Mailbox_ID inbox)))))"
proof -
  let ?c = "no_criteria\<lparr>cUnseen := True, cSince := at 155\<rparr>"
  have h: "cHeader ?c = None" and b: "cBody ?c = None" and t: "cText ?c = None"
    by (simp_all add: no_criteria_def)
  have run: "fst (SearchMessages (two_messages Postgres) inbox False ?c) = Inr [1]"
    by (rule search_unseen_since)
  have len: "length (select_messages (two_messages Postgres) (Mailbox_ID inbox)) < 2 ^ 32"
    by (simp add: inbox_def select_two_messages)
  note result = SearchMessages_result [OF h b t, of "two_messages Postgres" inbox False]
  from result have eq: "Inr [1 :: uint32] =
     (if failing (two_messages Postgres) then Inl ErrStore
      else Inr (map (\<lambda>(k, m). if False then word_of_int (ID m) else of_nat k)
         (filter (\<lambda>(k, m). satisfies_structural_criteria ?c (of_nat k) m)
            (numbered (select_messages (two_messages Postgres) (Mailbox_ID inbox))))))"
    unfolding run by (rule conjunct1)
  from result len have asc: "sorted_wrt (<)
     (map (\<lambda>(k, m). of_nat k :: uint32)
        (filter (\<lambda>(k, m). satisfies_structural_criteria ?c (of_nat k) m)
           (numbered (select_messages (two_messages Postgres) (Mailbox_ID inbox)))))"
    by blast
  show ?thesis
    by (rule conjI [OF h conjI [OF b conjI [OF t conjI [OF run conjI [OF eq conjI [OF len asc]]]]]])
qed

text \<open>
  The claim as first stated fails twice. A message dated exactly at the before-date is
  returned although the claim excludes it; and in UID mode the result follows the
  listing, here the row ids 2 and 1, which is not ascending.
\<close>

theorem SearchMessages_counterexample:
  "map Date (select_messages (one_message Postgres) (Mailbox_ID inbox)) = [at 150] \<and>
   fst (SearchMessages (one_message Postgres) inbox False (no_criteria\<lparr>cBefore := at 150\<rparr>))
     = Inr [1] \<and>
   fst (SearchMessages (two_messages Postgres) inbox True no_criteria) = Inr [2, 1]"
  by (simp add: SearchMessages_returns healthy_examples select_one_message select_two_messages
      inbox_def new_message_def no_criteria_def search_match_def zero_time_def at_def
      Before_def After_def)

text \<open>
  The zero time value is the instant 0 in UTC. A since-date at the instant 0 in another
  location differs from it, so it is a supplied criterion; a body criterion is not
  evaluated, so a message whose body does not hold the text is returned all the same.
\<close>

lemma search_edge_cases:
  "fst (SearchMessages (one_message e) inbox False
          (no_criteria\<lparr>cBefore := \<lparr>instant = 0, zone = ''CET''\<rparr>\<rparr>)) = Inr []"
  "fst (SearchMessages (one_message e) inbox False (no_criteria\<lparr>cBefore := zero_time\<rparr>)) = Inr [1]"
  "fst (SearchMessages (one_message e) inbox False (no_criteria\<lparr>cBody := Some [''zzz'']\<rparr>)) = Inr [1]"
  by (simp_all add: SearchMessages_returns healthy_examples select_one_message inbox_def
      new_message_def no_criteria_def search_match_def zero_time_def at_def Before_def After_def)

text \<open>
  Claim C10. The mailbox session adapter uses the row id of a message (\<open>Message.ID\<close>,
  as a 32-bit value) as its protocol-level UID, not the stored \<open>uid\<close> column: every
  message a fetch emits carries it as \<open>Uid\<close> and, when the UID item is requested, as
  that item; a UID search criterion is membership of the row id in the given set; and a
  search in UID mode returns the row ids of the matches.
\<close>

theorem row_id_is_protocol_uid:
  "(fst (IMAPMailbox_ListMessages d mb uid seqSet items) = (None, out) \<longrightarrow>
      map (\<lambda>im. (Uid im, Items im FetchUid)) out =
      map (\<lambda>m. (word_of_int (ID m),
                  if FetchUid \<in> set items then Some (Int64Value (ID m)) else None))
        (selected seqSet (select_messages d (Mailbox_ID mb)))) \<and>
   (fst (SearchMessages d mb True c) = Inr res \<longrightarrow>
      res = map (\<lambda>(k, m). word_of_int (ID m))
              (filter (\<lambda>(k, m). search_match c (of_nat k) m)
                 (numbered (select_messages d (Mailbox_ID mb))))) \<and>
   search_match (c\<lparr>cUid := Some U\<rparr>) seqNum msg =
     (word_of_int (ID msg) \<in> U \<and> search_match (c\<lparr>cUid := None\<rparr>) seqNum msg)"
proof (intro conjI impI)
  assume "fst (IMAPMailbox_ListMessages d mb uid seqSet items) = (None, out)"
  then have "out = fetch_loop seqSet items 0 (select_messages d (Mailbox_ID mb))"
    by (auto simp: IMAPMailbox_ListMessages_def ListMessages_def split: if_splits)
  then show "map (\<lambda>im. (Uid im, Items im FetchUid)) out =
      map (\<lambda>m. (word_of_int (ID m),
                  if FetchUid \<in> set items then Some (Int64Value (ID m)) else None))
        (selected seqSet (select_messages d (Mailbox_ID mb)))"
    by (simp add: fetch_loop_selected selected_def fetch_items_FetchUid comp_def
        case_prod_unfold)
next
  assume "fst (SearchMessages d mb True c) = Inr res"
  then have "res = search_loop True c 0 (select_messages d (Mailbox_ID mb))"
    by (auto simp: SearchMessages_def ListMessages_def split: if_splits)
  then show "res = map (\<lambda>(k, m). word_of_int (ID m))
              (filter (\<lambda>(k, m). search_match c (of_nat k) m)
                 (numbered (select_messages d (Mailbox_ID mb))))"
    by (simp add: search_loop_eq numbered_def)
next
  show "search_match (c\<lparr>cUid := Some U\<rparr>) seqNum msg =
     (word_of_int (ID msg) \<in> U \<and> search_match (c\<lparr>cUid := None\<rparr>) seqNum msg)"
    by (auto simp: search_match_def split: option.splits)
qed

lemma fetch_two_messages:
  "fst (IMAPMailbox_ListMessages (two_messages e) inbox True {1, 2} [FetchUid]) =
     (None, [\<lparr>SeqNum = 1, Uid = 2, Items = [FetchUid \<mapsto> Int64Value 2]\<rparr>,
             \<lparr>SeqNum = 2, Uid = 1, Items = [FetchUid \<mapsto> Int64Value 1]\<rparr>])"
  by (simp add: IMAPMailbox_ListMessages_def ListMessages_def healthy_examples
      select_two_messages inbox_def new_message_def)

lemma uid_search_two_messages:
  "fst (SearchMessages (two_messages e) inbox True (no_criteria\<lparr>cUid := Some {1}\<rparr>)) = Inr [1]"
  by (simp add: SearchMessages_returns healthy_examples select_two_messages inbox_def
      new_message_def no_criteria_def search_match_def zero_time_def at_def Before_def After_def)

theorem row_id_is_protocol_uid_witness:
  "map (\<lambda>m. (ID m, UID m)) (select_messages (two_messages Postgres) (Mailbox_ID inbox)) =
     [(2, 3), (1, 5)] \<and>
   fst (IMAPMailbox_ListMessages (two_messages Postgres) inbox True {1, 2} [FetchUid]) =
     (None, [\<lparr>SeqNum = 1, Uid = 2, Items = [FetchUid \<mapsto> Int64Value 2]\<rparr>,
             \<lparr>SeqNum = 2, Uid = 1, Items = [FetchUid \<mapsto> Int64Value 1]\<rparr>]) \<and>
   fst (SearchMessages (two_messages Postgres) inbox True (no_criteria\<lparr>cUid := Some {1}\<rparr>)) =
     Inr [1] \<and>
   [1 :: uint32] =
     map (\<lambda>(k, m). word_of_int (ID m))
       (filter (\<lambda>(k, m). search_match (no_criteria\<lparr>cUid := Some {1}\<rparr>) (of_nat k) m)
          (numbered (select_messages (two_messages Postgres) (Mailbox_ID inbox))))"
proof -
  have listing: "map (\<lambda>m. (ID m, UID m))
      (select_messages (two_messages Postgres) (Mailbox_ID inbox)) = [(2, 3), (1, 5)]"
    by (simp add: inbox_def select_two_messages new_message_def)
  have fetch: "fst (IMAPMailbox_ListMessages (two_messages Postgres) inbox True {1, 2} [FetchUid]) =
     (None, [\<lparr>SeqNum = 1, Uid = 2, Items = [FetchUid \<mapsto> Int64Value 2]\<rparr>,
             \<lparr>SeqNum = 2, Uid = 1, Items = [FetchUid \<mapsto> Int64Value 1]\<rparr>])"
    by (rule fetch_two_messages)
  have search: "fst (SearchMessages (two_messages Postgres) inbox True
      (no_criteria\<lparr>cUid := Some {1}\<rparr>)) = Inr [1]"
    by (rule uid_search_two_messages)
  from row_id_is_protocol_uid [of "two_messages Postgres" inbox True "{1, 2}" "[FetchUid]" _
      "no_criteria\<lparr>cUid := Some {1}\<rparr>" "[1]"] search
  have ids: "[1 :: uint32] =
     map (\<lambda>(k, m). word_of_int (ID m))
       (filter (\<lambda>(k, m). search_match (no_criteria\<lparr>cUid := Some {1}\<rparr>) (of_nat k) m)
          (numbered (select_messages (two_messages Postgres) (Mailbox_ID inbox))))"
    by blast
  show ?thesis
    by (rule conjI [OF listing conjI [OF fetch conjI [OF search ids]]])
qed

section \<open>Storing messages and users\<close>

lemma tables_advance [simp]:
  "users (advance d) = users d" "mailboxes (advance d) = mailboxes d"
  "messages (advance d) = messages d" "attachments (advance d) = attachments d"
  "engine (advance d) = engine d" "next_user_id (advance d) = next_user_id d"
  "next_mailbox_id (advance d) = next_mailbox_id d"
  "next_message_id (advance d) = next_message_id d"
  "next_attachment_id (advance d) = next_attachment_id d"
  by (simp_all add: advance_def)

text \<open>
  Claim C1, as amended. createMessage stores the message under the UID carried by the
  message it is handed; the store generates the row id and the creation time only. The
  insert is rejected, and the message table left as it was, when the engine fails, when
  the mailbox already holds a message with that UID or, with foreign keys enforced, when
  the mailbox does not exist; so the UIDs within a mailbox stay pairwise distinct.
\<close>

theorem CreateMessage_stores_given_uid:
  assumes "CreateMessage d now m = (e, d')"
  shows "(e = None \<longrightarrow> messages d' = messages d @ [m\<lparr>ID := next_message_id d, Created := now\<rparr>]) \<and>
     (e \<noteq> None \<longrightarrow> messages d' = messages d) \<and>
     (e = None) =
       (\<not> failing d \<and>
        \<not> (\<exists>x \<in> set (messages d). MailboxID x = MailboxID m \<and> UID x = UID m) \<and>
        \<not> (foreign_keys (engine d) \<and> MailboxID m \<notin> Mailbox_ID ` set (mailboxes d))) \<and>
     (distinct (map (\<lambda>x. (MailboxID x, UID x)) (messages d)) \<longrightarrow>
      distinct (map (\<lambda>x. (MailboxID x, UID x)) (messages d')))"
proof (intro conjI impI)
  assume "e = None"
  with assms show "messages d' = messages d @ [m\<lparr>ID := next_message_id d, Created := now\<rparr>]"
    by (auto simp: CreateMessage_def split: if_splits)
next
  assume "e \<noteq> None"
  with assms show "messages d' = messages d"
    by (auto simp: CreateMessage_def split: if_splits)
next
  from assms show "(e = None) =
       (\<not> failing d \<and>
        \<not> (\<exists>x \<in> set (messages d). MailboxID x = MailboxID m \<and> UID x = UID m) \<and>
        \<not> (foreign_keys (engine d) \<and> MailboxID m \<notin> Mailbox_ID ` set (mailboxes d)))"
    by (simp add: CreateMessage_def split: if_splits) blast+
next
  assume dist: "distinct (map (\<lambda>x. (MailboxID x, UID x)) (messages d))"
  show "distinct (map (\<lambda>x. (MailboxID x, UID x)) (messages d'))"
  proof (cases e)
    case (Some err)
    with assms have "messages d' = messages d"
      by (auto simp: CreateMessage_def split: if_splits)
    with dist show ?thesis by simp
  next
    case None
    with assms have new: "messages d' = messages d @ [m\<lparr>ID := next_message_id d, Created := now\<rparr>]"
      and free: "\<not> (\<exists>x \<in> set (messages d). MailboxID x = MailboxID m \<and> UID x = UID m)"
      by (auto simp: CreateMessage_def split: if_splits)
    from free have "(MailboxID m, UID m) \<notin> (\<lambda>x. (MailboxID x, UID x)) ` set (messages d)"
      by auto
    with dist new show ?thesis by simp
  qed
qed

lemma CreateMessage_one_message:
  "CreateMessage (with_alice e) (at 200) (new_message 1 5 150) = (None, one_message e)"
  by (simp add: one_message_eq with_alice_eq new_message_def store_defs)

theorem CreateMessage_stores_given_uid_witness:
  "CreateMessage (with_alice Postgres) (at 200) (new_message 1 5 150) = (None, one_message Postgres) \<and>
   messages (one_message Postgres) =
     messages (with_alice Postgres) @
       [(new_message 1 5 150)\<lparr>ID := next_message_id (with_alice Postgres), Created := at 200\<rparr>] \<and>
   map UID (messages (one_message Postgres)) = [5] \<and>
   distinct (map (\<lambda>x. (MailboxID x, UID x)) (messages (with_alice Postgres))) \<and>
   distinct (map (\<lambda>x. (MailboxID x, UID x)) (messages (one_message Postgres)))"
proof -
  have run: "CreateMessage (with_alice Postgres) (at 200) (new_message 1 5 150) =
      (None, one_message Postgres)"
    by (rule CreateMessage_one_message)
  have before: "distinct (map (\<lambda>x. (MailboxID x, UID x)) (messages (with_alice Postgres)))"
    by (simp add: with_alice_eq)
  note stored = CreateMessage_stores_given_uid [OF run]
  from stored have rows: "messages (one_message Postgres) =
     messages (with_alice Postgres) @
       [(new_message 1 5 150)\<lparr>ID := next_message_id (with_alice Postgres), Created := at 200\<rparr>]"
    by blast
  from stored before
  have after: "distinct (map (\<lambda>x. (MailboxID x, UID x)) (messages (one_message Postgres)))"
    by blast
  have uids: "map UID (messages (one_message Postgres)) = [5]"
    by (simp add: rows with_alice_eq new_message_def)
  show ?thesis
    by (rule conjI [OF run conjI [OF rows conjI [OF uids conjI [OF before after]]]])
qed

lemma Data_defs:
  "Data d s now now' (Inr body) =
     (case GetMailbox d (User_ID (session_user s)) ''INBOX'' of
        (Inl e, d') \<Rightarrow> (Some e, d')
      | (Inr mailbox, d') \<Rightarrow>
          CreateMessage d' now'
            \<lparr>ID = 0, MailboxID = Mailbox_ID mailbox, UID = 0, From = session_from s,
             To = Join (session_to s) '','', Cc = [], Subject = [], Date = now,
             Body = body, RawData = body, Flags = [], Size = int (length body),
             Seen = False, Deleted = False, Draft = False, Created = zero_time\<rparr>)"
  by (simp add: Data_def)

lemma first_submission:
  "Data (with_alice e) alice_session (at 150) (at 200) (Inr ''hello'') =
     (None, (with_alice e)\<lparr>
        messages := [\<lparr>ID = 1, MailboxID = 1, UID = 0, From = ''bob@example.org'',
          To = ''alice@example.org'', Cc = [], Subject = [], Date = at 150, Body = ''hello'',
          RawData = ''hello'', Flags = [], Size = 5, Seen = False, Deleted = False,
          Draft = False, Created = at 200\<rparr>],
        next_message_id := 2\<rparr>)"
  by (simp add: Data_defs GetMailbox_def alice_session_def alice_def with_alice_eq store_defs)

lemma one_submission_eq:
  "one_submission e = (with_alice e)\<lparr>
        messages := [\<lparr>ID = 1, MailboxID = 1, UID = 0, From = ''bob@example.org'',
          To = ''alice@example.org'', Cc = [], Subject = [], Date = at 150, Body = ''hello'',
          RawData = ''hello'', Flags = [], Size = 5, Seen = False, Deleted = False,
          Draft = False, Created = at 200\<rparr>],
        next_message_id := 2\<rparr>"
  by (simp add: one_submission_def first_submission)

lemma second_submission:
  "Data (one_submission e) alice_session (at 160) (at 210) (Inr ''again'') =
     (Some ErrConstraint, one_submission e)"
  by (simp add: one_submission_eq Data_defs GetMailbox_def alice_session_def
      alice_def with_alice_eq store_defs)

lemma two_submissions_eq: "two_submissions e = one_submission e"
  by (simp add: two_submissions_def second_submission)

text \<open>
  The claim as first stated fails. A submission into the empty \<open>INBOX\<close> is stored with
  UID 0, not 1; a second submission into the same mailbox is rejected by the engine, so
  after two submissions the UIDs of the mailbox are 0 alone, not 1 and 2.
\<close>

theorem CreateMessage_uid_counterexample:
  "select_messages (with_alice Postgres) (Mailbox_ID inbox) = [] \<and>
   fst (Data (with_alice Postgres) alice_session (at 150) (at 200) (Inr ''hello'')) = None \<and>
   map UID (select_messages (one_submission Postgres) (Mailbox_ID inbox)) = [0] \<and>
   fst (Data (one_submission Postgres) alice_session (at 160) (at 210) (Inr ''again'')) = Some ErrConstraint \<and>
   map UID (select_messages (two_submissions Postgres) (Mailbox_ID inbox)) = [0]"
proof -
  have empty: "select_messages (with_alice Postgres) (Mailbox_ID inbox) = []"
    by (simp add: with_alice_eq select_messages_def)
  have first: "fst (Data (with_alice Postgres) alice_session (at 150) (at 200) (Inr ''hello'')) = None"
    by (simp add: first_submission)
  have one: "map UID (select_messages (one_submission Postgres) (Mailbox_ID inbox)) = [0]"
    by (simp add: one_submission_eq inbox_def select_messages_def)
  have second: "fst (Data (one_submission Postgres) alice_session (at 160) (at 210) (Inr ''again'')) =
      Some ErrConstraint"
    by (simp add: second_submission)
  have two: "map UID (select_messages (two_submissions Postgres) (Mailbox_ID inbox)) = [0]"
    by (simp add: two_submissions_eq one)
  show ?thesis
    by (rule conjI [OF empty conjI [OF first conjI [OF one conjI [OF second two]]]])
qed


lemma default_rows_Nil [simp]: "default_rows n uid [] = []"
  by (simp add: default_rows_def)






section \<open>Flag update\<close>



lemma apply_flags_eq:
  "apply_flags flags (s, dl, dr) =
     (s \<or> SeenFlag \<in> set flags, dl \<or> DeletedFlag \<in> set flags, dr \<or> DraftFlag \<in> set flags)"
  by (induction flags arbitrary: s dl dr) (auto split: flag.splits)






lemma healthy_advance: "faults d = [] \<Longrightarrow> advance d = d"
  by (simp add: advance_def)

lemma healthy_not_failing: "faults d = [] \<Longrightarrow> \<not> failing d"
  by (simp add: failing_def)















section \<open>Expunge\<close>

lemma delete_messages_tables [simp]:
  "messages (delete_messages P d) = filter (\<lambda>m. \<not> P m) (messages d)"
  "users (delete_messages P d) = users d"
  "mailboxes (delete_messages P d) = mailboxes d"
  "engine (delete_messages P d) = engine d"
  "faults (delete_messages P d) = faults d"
  by (simp_all add: delete_messages_def Let_def)








lemma DeleteMessage_healthy:
  "faults d = [] \<Longrightarrow> DeleteMessage d i = (None, delete_messages (\<lambda>m. ID m = i) d)"
  by (simp add: DeleteMessage_def healthy_not_failing healthy_advance)

lemma expunge_loop_succeeds: "faults d = [] \<Longrightarrow> fst (expunge_loop d ms) = None"
  by (induction ms arbitrary: d) (simp_all add: DeleteMessage_healthy)

lemma Expunge_succeeds: "faults d = [] \<Longrightarrow> fst (Expunge d mb) = None"
  by (simp add: Expunge_def ListMessages_def healthy_not_failing healthy_advance
      expunge_loop_succeeds)






section \<open>Deletion and the declared cascades\<close>

lemma delete_messages_attachments:
  "attachments (delete_messages P d) =
     (if foreign_keys (engine d)
      then filter (\<lambda>a. MessageID a \<notin> ID ` {m \<in> set (messages d). P m}) (attachments d)
      else attachments d)"
  by (simp add: delete_messages_def Let_def)

lemma delete_mailboxes_enforced:
  assumes "foreign_keys (engine d)"
  shows "mailboxes (delete_mailboxes P d) = filter (\<lambda>b. \<not> P b) (mailboxes d)"
    and "messages (delete_mailboxes P d) =
           filter (\<lambda>m. MailboxID m \<notin> Mailbox_ID ` {b \<in> set (mailboxes d). P b}) (messages d)"
    and "attachments (delete_mailboxes P d) =
           filter (\<lambda>a. MessageID a \<notin>
                     ID ` {m \<in> set (messages d).
                            MailboxID m \<in> Mailbox_ID ` {b \<in> set (mailboxes d). P b}})
             (attachments d)"
    and "users (delete_mailboxes P d) = users d"
    and "engine (delete_mailboxes P d) = engine d"
  using assms by (simp_all add: delete_mailboxes_def Let_def delete_messages_attachments)

lemma delete_users_enforced:
  assumes "foreign_keys (engine d)"
  shows "users (delete_users P d) = filter (\<lambda>u. \<not> P u) (users d)"
    and "mailboxes (delete_users P d) =
           filter (\<lambda>b. UserID b \<notin> User_ID ` {u \<in> set (users d). P u}) (mailboxes d)"
    and "messages (delete_users P d) =
           filter (\<lambda>m. MailboxID m \<notin>
                     Mailbox_ID ` {b \<in> set (mailboxes d).
                                    UserID b \<in> User_ID ` {u \<in> set (users d). P u}})
             (messages d)"
    and "attachments (delete_users P d) =
           filter (\<lambda>a. MessageID a \<notin>
                     ID ` {m \<in> set (messages d). MailboxID m \<in>
                            Mailbox_ID ` {b \<in> set (mailboxes d).
                                           UserID b \<in> User_ID ` {u \<in> set (users d). P u}}})
             (attachments d)"
  using assms by (simp_all add: delete_users_def Let_def delete_mailboxes_enforced)

text \<open>
  With the foreign keys enforced, as on the PostgreSQL backend, deletion cascades over
  ownership: after \<open>DeleteUser\<close> of an existing user none of the user's mailboxes, none
  of their messages and none of the attachments of those messages is left; likewise
  for \<open>DeleteMailbox\<close> and \<open>DeleteMessage\<close>.
\<close>

lemma DeleteUser_cascades:
  assumes "foreign_keys (engine d)" and "DeleteUser d u = (None, d')"
    and "u \<in> User_ID ` set (users d)"
  shows "u \<notin> User_ID ` set (users d')"
    and "\<forall>b \<in> set (mailboxes d'). UserID b \<noteq> u"
    and "\<forall>m \<in> set (messages d').
           MailboxID m \<notin> Mailbox_ID ` {b \<in> set (mailboxes d). UserID b = u}"
    and "\<forall>a \<in> set (attachments d').
           MessageID a \<notin> ID ` {m \<in> set (messages d).
              MailboxID m \<in> Mailbox_ID ` {b \<in> set (mailboxes d). UserID b = u}}"
proof -
  from assms(2) have d': "d' = delete_users (\<lambda>x. User_ID x = u) (advance d)"
    by (auto simp: DeleteUser_def split: if_splits)
  have fk: "foreign_keys (engine (advance d))"
    using assms(1) by simp
  have gone: "User_ID ` {x \<in> set (users d). User_ID x = u} = {u}"
    using assms(3) by auto
  show "u \<notin> User_ID ` set (users d')"
    unfolding d' delete_users_enforced(1) [OF fk] by auto
  show "\<forall>b \<in> set (mailboxes d'). UserID b \<noteq> u"
    unfolding d' delete_users_enforced(2) [OF fk] using gone by fastforce
  show "\<forall>m \<in> set (messages d').
           MailboxID m \<notin> Mailbox_ID ` {b \<in> set (mailboxes d). UserID b = u}"
    unfolding d' delete_users_enforced(3) [OF fk] using gone by fastforce
  show "\<forall>a \<in> set (attachments d').
           MessageID a \<notin> ID ` {m \<in> set (messages d).
              MailboxID m \<in> Mailbox_ID ` {b \<in> set (mailboxes d). UserID b = u}}"
    unfolding d' delete_users_enforced(4) [OF fk] using gone by fastforce
qed

lemma DeleteMailbox_cascades:
  assumes "foreign_keys (engine d)" and "DeleteMailbox d i = (None, d')"
  shows "i \<notin> Mailbox_ID ` set (mailboxes d')"
    and "i \<in> Mailbox_ID ` set (mailboxes d) \<Longrightarrow> \<forall>m \<in> set (messages d'). MailboxID m \<noteq> i"
    and "i \<in> Mailbox_ID ` set (mailboxes d) \<Longrightarrow>
           \<forall>a \<in> set (attachments d'). MessageID a \<notin> ID ` {m \<in> set (messages d). MailboxID m = i}"
proof -
  from assms(2) have d': "d' = delete_mailboxes (\<lambda>b. Mailbox_ID b = i) (advance d)"
    by (auto simp: DeleteMailbox_def split: if_splits)
  have fk: "foreign_keys (engine (advance d))"
    using assms(1) by simp
  show "i \<notin> Mailbox_ID ` set (mailboxes d')"
    unfolding d' delete_mailboxes_enforced(1) [OF fk] by auto
  assume "i \<in> Mailbox_ID ` set (mailboxes d)"
  then have gone: "Mailbox_ID ` {b \<in> set (mailboxes d). Mailbox_ID b = i} = {i}"
    by auto
  show "\<forall>m \<in> set (messages d'). MailboxID m \<noteq> i"
    unfolding d' delete_mailboxes_enforced(2) [OF fk] using gone by fastforce
  show "\<forall>a \<in> set (attachments d'). MessageID a \<notin> ID ` {m \<in> set (messages d). MailboxID m = i}"
    unfolding d' delete_mailboxes_enforced(3) [OF fk] using gone by fastforce
qed

lemma DeleteMessage_cascades:
  assumes "foreign_keys (engine d)" and "DeleteMessage d i = (None, d')"
  shows "i \<notin> ID ` set (messages d')"
    and "i \<in> ID ` set (messages d) \<Longrightarrow> \<forall>a \<in> set (attachments d'). MessageID a \<noteq> i"
proof -
  from assms(2) have d': "d' = delete_messages (\<lambda>m. ID m = i) (advance d)"
    by (auto simp: DeleteMessage_def split: if_splits)
  show "i \<notin> ID ` set (messages d')"
    unfolding d' by auto
  assume "i \<in> ID ` set (messages d)"
  then have gone: "ID ` {m \<in> set (messages d). ID m = i} = {i}"
    by auto
  show "\<forall>a \<in> set (attachments d'). MessageID a \<noteq> i"
    unfolding d' delete_messages_attachments using assms(1) gone by fastforce
qed

lemma with_attachment_eq:
  "with_attachment e = (one_message e)\<lparr>
     attachments := [\<lparr>Attachment_ID = 1, MessageID = 1, Filename = ''a.txt'',
       MimeType = ''text/plain'', Attachment_Data = ''abc'', Attachment_Size = 3,
       Attachment_Created = at 220\<rparr>],
     next_attachment_id := 2\<rparr>"
  by (simp add: with_attachment_def CreateAttachment_def one_message_eq with_alice_eq
      failing_def advance_def new_message_def)

lemmas delete_defs =
  DeleteUser_def DeleteMailbox_def DeleteMessage_def delete_users_def delete_mailboxes_def
  delete_messages_def foreign_keys_def failing_def advance_def Let_def

lemma Postgres_deletes_cascade:
  "mailboxes (snd (DeleteUser (with_attachment Postgres) 1)) = []"
  "messages (snd (DeleteUser (with_attachment Postgres) 1)) = []"
  "attachments (snd (DeleteUser (with_attachment Postgres) 1)) = []"
  "messages (snd (DeleteMailbox (with_attachment Postgres) 1)) = []"
  "attachments (snd (DeleteMailbox (with_attachment Postgres) 1)) = []"
  "attachments (snd (DeleteMessage (with_attachment Postgres) 1)) = []"
  by (simp_all add: with_attachment_eq one_message_eq with_alice_eq new_message_def delete_defs)

text \<open>The same store on SQLite, read back through the store after a delete.\<close>

lemma SQLite_reads_after_delete:
  "map_sum id Mailbox_Name
     (fst (GetMailbox (snd (DeleteUser (with_attachment SQLite) 1)) 1 ''INBOX'')) = Inr ''INBOX''"
  "map_sum id (map ID) (fst (ListMessages (snd (DeleteMailbox (with_attachment SQLite) 1)) 1)) =
     Inr [1]"
  by (simp_all add: GetMailbox_def ListMessages_def select_messages_def
      with_attachment_eq one_message_eq with_alice_eq new_message_def delete_defs)

text \<open>
  Claim C8 fails on the SQLite backend. The schema declares the cascades, but the store
  opened by \<open>Open\<close> does not enforce foreign keys: on a store holding one user, her four
  mailboxes, one message in \<open>INBOX\<close> and one attachment of it, \<open>DeleteUser\<close> succeeds
  and the mailboxes, the message and the attachment are still there; after
  \<open>DeleteMailbox\<close> the message is still there; after \<open>DeleteMessage\<close> the attachment is
  still there.
\<close>

theorem SQLite_deletes_do_not_cascade:
  "fst (DeleteUser (with_attachment SQLite) 1) = None \<and>
   users (snd (DeleteUser (with_attachment SQLite) 1)) = [] \<and>
   map Mailbox_Name (mailboxes (snd (DeleteUser (with_attachment SQLite) 1))) =
     [''INBOX'', ''Sent'', ''Drafts'', ''Trash''] \<and>
   map ID (messages (snd (DeleteUser (with_attachment SQLite) 1))) = [1] \<and>
   map Filename (attachments (snd (DeleteUser (with_attachment SQLite) 1))) = [''a.txt''] \<and>
   fst (DeleteMailbox (with_attachment SQLite) 1) = None \<and>
   map MailboxID (messages (snd (DeleteMailbox (with_attachment SQLite) 1))) = [1] \<and>
   fst (DeleteMessage (with_attachment SQLite) 1) = None \<and>
   map MessageID (attachments (snd (DeleteMessage (with_attachment SQLite) 1))) = [1]"
  by (simp add: with_attachment_eq one_message_eq with_alice_eq new_message_def delete_defs)

section \<open>Submission: the size bound\<close>

lemma StartSMTPServer_limit: "MaxMessageBytes (StartSMTPServer cfg) = 1048576"
  by (simp add: StartSMTPServer_def)

lemma Data_read_error: "Data d s now now' (Inl e) = (Some e, d)"
  by (simp add: Data_def)

lemma Data_over_fixed_limit:
  "1048576 \<le> length payload \<Longrightarrow>
     Data d s now now' (data_reader (StartSMTPServer cfg) payload) = (Some ErrTooLarge, d)"
  by (simp add: data_reader_def StartSMTPServer_limit Data_read_error)

text \<open>
  Claim C9 fails on the configured maximum. \<open>StartSMTPServer\<close> sets the bound to
  1 MiB whatever the configuration says: with a configured maximum of 100 bytes, a
  payload of 200 bytes is read in full and stored in the \<open>INBOX\<close>.
\<close>

theorem Data_stores_payload_over_configured_maximum:
  "cfg_MaxMessageBytes small_limit = 100 \<and>
   length payload_200 = 200 \<and>
   MaxMessageBytes (StartSMTPServer small_limit) = 1048576 \<and>
   fst (Data (with_alice Postgres) alice_session (at 150) (at 200)
          (data_reader (StartSMTPServer small_limit) payload_200)) = None \<and>
   map (\<lambda>m. (MailboxID m, Size m, Body m = payload_200))
     (messages (snd (Data (with_alice Postgres) alice_session (at 150) (at 200)
          (data_reader (StartSMTPServer small_limit) payload_200)))) = [(1, 200, True)]"
proof -
  have read: "data_reader (StartSMTPServer small_limit) payload_200 = Inr payload_200"
    by (simp add: data_reader_def StartSMTPServer_limit payload_200_def)
  show ?thesis
    unfolding read
    by (simp add: small_limit_def StartSMTPServer_limit Data_defs GetMailbox_def
        alice_session_def alice_def with_alice_eq store_defs)
      (simp add: payload_200_def)
qed

section \<open>Maildrop session\<close>

lemma read_commands_store: "read_commands d conn = d"
  by (induction d conn rule: read_commands.induct) simp_all

lemma handleConnection_store: "handleConnection d conn = ([greeting], d)"
  by (simp add: handleConnection_def read_commands_store)

text \<open>
  Claim C3 fails on a graceful QUIT. \<open>handleConnection\<close> reads the commands and does
  nothing with them: in a session that logs in, marks message 1 deleted and quits, the
  only thing written is the greeting, and the message is still in the store when the
  connection ends.
\<close>

theorem handleConnection_deletes_nothing_at_QUIT:
  "map ID (messages (one_message Postgres)) = [1] \<and>
   fst (handleConnection (one_message Postgres) dele_quit) = [greeting] \<and>
   map ID (messages (snd (handleConnection (one_message Postgres) dele_quit))) = [1]"
  by (simp add: handleConnection_store one_message_eq)

section \<open>Row ids are issued once\<close>

text \<open>
  The hypothesis of the theorems on flag update and Expunge, that the message rows have
  pairwise different ids, holds in every store reached from \<open>Open\<close> through the
  operations of the store and of the adapters.
\<close>

lemma ids_issued_once_distinct: "ids_issued_once d \<Longrightarrow> distinct (map ID (messages d))"
  by (simp add: ids_issued_once_def)

lemma ids_issued_once_same:
  "messages d' = messages d \<Longrightarrow> next_message_id d' = next_message_id d \<Longrightarrow>
     ids_issued_once d' = ids_issued_once d"
  by (simp add: ids_issued_once_def)

lemma ids_issued_once_Open: "ids_issued_once (Open e)"
  by (simp add: ids_issued_once_def Open_def)

lemma ids_issued_once_advance [simp]: "ids_issued_once (advance d) = ids_issued_once d"
  by (simp add: ids_issued_once_def)

lemma ids_issued_once_CreateMessage:
  "ids_issued_once d \<Longrightarrow> ids_issued_once (snd (CreateMessage d now m))"
  by (auto simp: CreateMessage_def ids_issued_once_def list_all_iff
      elim!: order_less_trans [rotated] )

lemma ids_issued_once_delete_messages:
  "ids_issued_once d \<Longrightarrow> ids_issued_once (delete_messages P d)"
  by (auto simp: ids_issued_once_def delete_messages_def Let_def list_all_iff distinct_map_filter)

lemma ids_issued_once_delete_mailboxes:
  "ids_issued_once d \<Longrightarrow> ids_issued_once (delete_mailboxes P d)"
proof -
  assume ok: "ids_issued_once d"
  let ?d1 = "d\<lparr>mailboxes := filter (\<lambda>b. \<not> P b) (mailboxes d)\<rparr>"
  from ok have "ids_issued_once ?d1"
    by (simp add: ids_issued_once_def)
  then show ?thesis
    by (simp add: delete_mailboxes_def Let_def ids_issued_once_delete_messages)
qed

lemma ids_issued_once_delete_users:
  "ids_issued_once d \<Longrightarrow> ids_issued_once (delete_users P d)"
proof -
  assume ok: "ids_issued_once d"
  let ?d1 = "d\<lparr>users := filter (\<lambda>u. \<not> P u) (users d)\<rparr>"
  from ok have "ids_issued_once ?d1"
    by (simp add: ids_issued_once_def)
  then show ?thesis
    by (simp add: delete_users_def Let_def ids_issued_once_delete_mailboxes)
qed

lemma ids_issued_once_DeleteMessage:
  "ids_issued_once d \<Longrightarrow> ids_issued_once (snd (DeleteMessage d i))"
  by (simp add: DeleteMessage_def ids_issued_once_delete_messages)

lemma ids_issued_once_DeleteMailbox:
  "ids_issued_once d \<Longrightarrow> ids_issued_once (snd (DeleteMailbox d i))"
  by (simp add: DeleteMailbox_def ids_issued_once_delete_mailboxes)

lemma ids_issued_once_DeleteUser:
  "ids_issued_once d \<Longrightarrow> ids_issued_once (snd (DeleteUser d u))"
  by (simp add: DeleteUser_def ids_issued_once_delete_users)

lemma ids_issued_once_UpdateMessageFlags:
  "ids_issued_once d \<Longrightarrow> ids_issued_once (snd (UpdateMessageFlags d i fl s dl dr))"
  by (auto simp: UpdateMessageFlags_def ids_issued_once_def list_all_iff comp_def if_distrib
      cong: if_cong)

lemma ids_issued_once_CreateMailbox:
  "ids_issued_once d \<Longrightarrow> ids_issued_once (snd (CreateMailbox d mb))"
  by (simp add: CreateMailbox_def ids_issued_once_def)

lemma ids_issued_once_CreateAttachment:
  "ids_issued_once d \<Longrightarrow> ids_issued_once (snd (CreateAttachment d now a))"
  by (simp add: CreateAttachment_def ids_issued_once_def)

lemma ids_issued_once_create_default_mailboxes:
  "ids_issued_once d \<Longrightarrow> ids_issued_once (snd (create_default_mailboxes d uid names))"
proof (induction names arbitrary: d)
  case Nil
  then show ?case by simp
next
  case (Cons name names)
  let ?mb = "\<lparr>Mailbox_ID = 0, UserID = uid, Mailbox_Name = name, Path = name\<rparr>"
  from Cons.prems have "ids_issued_once (snd (CreateMailbox d ?mb))"
    by (rule ids_issued_once_CreateMailbox)
  with Cons.IH [of "snd (CreateMailbox d ?mb)"] show ?case
    by (auto split: prod.splits option.splits)
qed

lemma ids_issued_once_CreateUser:
  "ids_issued_once d \<Longrightarrow> ids_issued_once (snd (CreateUser d now u))"
proof -
  assume ok: "ids_issued_once d"
  let ?d1 = "(advance d)\<lparr>
      users := users d @ [u\<lparr>User_ID := next_user_id d, User_Created := now, Updated := now\<rparr>],
      next_user_id := next_user_id d + 1\<rparr>"
  from ok have "ids_issued_once ?d1"
    by (simp add: ids_issued_once_def)
  then have "ids_issued_once (snd (create_default_mailboxes ?d1 (next_user_id d) default_mailboxes))"
    by (rule ids_issued_once_create_default_mailboxes)
  with ok show ?thesis
    by (simp add: CreateUser_def)
qed

lemma ids_issued_once_Data:
  "ids_issued_once d \<Longrightarrow> ids_issued_once (snd (Data d s now now' r))"
  by (auto simp: Data_def GetMailbox_def ids_issued_once_CreateMessage
      split: sum.splits list.splits prod.splits if_splits)

lemma ids_issued_once_update_loop:
  "ids_issued_once d \<Longrightarrow> ids_issued_once (snd (update_loop d S flags i ms))"
proof (induction ms arbitrary: d i)
  case Nil
  then show ?case by simp
next
  case (Cons m ms)
  have "ids_issued_once (snd (UpdateMessageFlags d j fl s dl dr))" for j fl s dl dr
    using Cons.prems by (rule ids_issued_once_UpdateMessageFlags)
  with Cons show ?case
    by (auto simp: apply_flags_eq split: prod.splits option.splits) (metis snd_conv)+
qed

lemma ids_issued_once_UpdateMessagesFlags:
  "ids_issued_once d \<Longrightarrow>
     ids_issued_once (snd (UpdateMessagesFlags d mb uid seqSet operation flags))"
  by (simp add: UpdateMessagesFlags_def ListMessages_def ids_issued_once_update_loop)

lemma ids_issued_once_expunge_loop:
  "ids_issued_once d \<Longrightarrow> ids_issued_once (snd (expunge_loop d ms))"
proof (induction ms arbitrary: d)
  case Nil
  then show ?case by simp
next
  case (Cons m ms)
  from Cons.prems have "ids_issued_once (snd (DeleteMessage d (ID m)))"
    by (rule ids_issued_once_DeleteMessage)
  with Cons show ?case
    by (auto split: prod.splits option.splits)
qed

lemma ids_issued_once_Expunge:
  "ids_issued_once d \<Longrightarrow> ids_issued_once (snd (Expunge d mb))"
  by (simp add: Expunge_def ListMessages_def ids_issued_once_expunge_loop)

end
